theory Spec2Isabelle
  imports Complex_Main
begin

section \<open>The pricing notebook over the reals\<close>

text \<open>
  The notebook \<^verbatim>\<open>Notebooks/BlackScholesMerton.ipynb\<close> computes with IEEE doubles.
  The embedding reads every double as the real number it stands for and does not round.
  Where Python or numpy leave the finite reals the embedding stops with a \<open>failure\<close>:
  \<^item> \<open>ZeroDivisionError\<close>: Python's own \<^verbatim>\<open>/\<close> on a zero divisor raises this exception;
  \<^item> \<open>NotFinite\<close>: a numpy operation is evaluated outside its real domain (the logarithm
    of a number that is not positive, the square root of a negative number, a division of
    a \<^verbatim>\<open>float64\<close> by zero). numpy raises nothing there: it warns and goes on with
    \<^verbatim>\<open>nan\<close> or \<^verbatim>\<open>inf\<close>. The embedding does not follow these special values.
\<close>

datatype failure = ZeroDivisionError | NotFinite

definition bind_f :: "failure + 'a \<Rightarrow> ('a \<Rightarrow> failure + 'b) \<Rightarrow> failure + 'b" where
  "bind_f m k = (case m of Inl e \<Rightarrow> Inl e | Inr x \<Rightarrow> k x)"

text \<open>\<^verbatim>\<open>a / b\<close> on Python numbers.\<close>

definition py_truediv :: "real \<Rightarrow> real \<Rightarrow> failure + real" where
  "py_truediv a b = (if b = 0 then Inl ZeroDivisionError else Inr (a / b))"

text \<open>\<^verbatim>\<open>a / b\<close> where an operand is a numpy \<^verbatim>\<open>float64\<close>.\<close>

definition np_truediv :: "real \<Rightarrow> real \<Rightarrow> failure + real" where
  "np_truediv a b = (if b = 0 then Inl NotFinite else Inr (a / b))"

definition np_log :: "real \<Rightarrow> failure + real" where
  "np_log x = (if x \<le> 0 then Inl NotFinite else Inr (ln x))"

definition np_sqrt :: "real \<Rightarrow> failure + real" where
  "np_sqrt x = (if x < 0 then Inl NotFinite else Inr (sqrt x))"

subsection \<open>The library distributions\<close>

text \<open>
  \<^verbatim>\<open>scipy.stats.norm.cdf\<close> is the distribution function of the standard normal law, whose
  density is proportional to \<open>exp (- t\<^sup>2 / 2)\<close>. \<open>gauss_integral x\<close> is the integral of
  that function from \<open>0\<close> to \<open>x\<close>, written as its power series; \<open>gauss_half_mass\<close> is the
  integral over the positive half line, the least upper bound of \<open>gauss_integral\<close>.
\<close>

definition gauss_coeff :: "nat \<Rightarrow> real" where
  "gauss_coeff n = (if even n then 0 else (- 1 / 2) ^ (n div 2) / (fact (n div 2) * real n))"

definition gauss_integral :: "real \<Rightarrow> real" where
  "gauss_integral x = (\<Sum>n. gauss_coeff n * x ^ n)"

definition gauss_half_mass :: real where
  "gauss_half_mass = (SUP x. gauss_integral x)"

definition norm_cdf :: "real \<Rightarrow> real" where
  "norm_cdf x = 1 / 2 + gauss_integral x / (2 * gauss_half_mass)"

text \<open>
  \<^verbatim>\<open>scipy.stats.binom.pmf(k, n, p)\<close>, for \<open>0 \<le> k \<le> n\<close> and \<open>0 \<le> p \<le> 1\<close>. The pricer
  calls it on no other arguments (see \<open>lattice_setup_pstar\<close> below).
\<close>

definition binom_pmf :: "nat \<Rightarrow> nat \<Rightarrow> real \<Rightarrow> real" where
  "binom_pmf k n p = real (n choose k) * p ^ k * (1 - p) ^ (n - k)"

subsection \<open>The analytic pricer and the deltas\<close>

text \<open>
  The line that computes \<^verbatim>\<open>d1\<close>; \<^verbatim>\<open>blackScholesCall\<close>, \<^verbatim>\<open>bsmCallDelta\<close> and
  \<^verbatim>\<open>bsmPutDelta\<close> each start with it. The source's parameter \<^verbatim>\<open>div\<close> is \<open>dv\<close> here
  (\<open>div\<close> is HOL's integer division).
  \<^verbatim>\<open>d1 = (np.log(spot / strike) + (rate - div + 0.5 * vol * vol) * expiry) / (vol * np.sqrt(expiry))\<close>
\<close>

definition d1_line :: "real \<Rightarrow> real \<Rightarrow> real \<Rightarrow> real \<Rightarrow> real \<Rightarrow> real \<Rightarrow> failure + real" where
  "d1_line spot strike vol rate expiry dv =
     bind_f (py_truediv spot strike) (\<lambda>ratio.
     bind_f (np_log ratio) (\<lambda>lg.
     bind_f (np_sqrt expiry) (\<lambda>root.
     np_truediv (lg + (rate - dv + 0.5 * vol * vol) * expiry) (vol * root))))"

definition blackScholesCall :: "real \<Rightarrow> real \<Rightarrow> real \<Rightarrow> real \<Rightarrow> real \<Rightarrow> real \<Rightarrow> failure + real" where
  "blackScholesCall spot strike vol rate expiry dv =
     bind_f (d1_line spot strike vol rate expiry dv) (\<lambda>d1.
       let d2 = d1 - (vol * sqrt expiry);
           callPrc = (spot * exp (- dv * expiry) * norm_cdf d1)
                     - (strike * exp (- rate * expiry) * norm_cdf d2)
       in Inr callPrc)"

definition bsmCallDelta :: "real \<Rightarrow> real \<Rightarrow> real \<Rightarrow> real \<Rightarrow> real \<Rightarrow> real \<Rightarrow> failure + real" where
  "bsmCallDelta spot strike vol rate tau dv =
     bind_f (d1_line spot strike vol rate tau dv) (\<lambda>d1.
       let delta = exp (- dv * tau) * norm_cdf d1
       in Inr delta)"

definition bsmPutDelta :: "real \<Rightarrow> real \<Rightarrow> real \<Rightarrow> real \<Rightarrow> real \<Rightarrow> real \<Rightarrow> failure + real" where
  "bsmPutDelta spot strike vol rate tau dv =
     bind_f (d1_line spot strike vol rate tau dv) (\<lambda>d1.
       let delta = exp (- dv * tau) * norm_cdf (- d1)
       in Inr delta)"

subsection \<open>The payoffs and the lattice pricer\<close>

definition callPayoff :: "real \<Rightarrow> real \<Rightarrow> real" where
  "callPayoff spot strike = max (spot - strike) 0"

definition putPayoff :: "real \<Rightarrow> real \<Rightarrow> real" where
  "putPayoff spot strike = max (strike - spot) 0"

text \<open>
  The first lines of \<^verbatim>\<open>binomialPricer\<close>, up to \<^verbatim>\<open>pstar\<close>: the result is \<open>(h, u, d, pstar)\<close>.
  \<^verbatim>\<open>T / n\<close> divides Python numbers; \<^verbatim>\<open>u - d\<close> is a \<^verbatim>\<open>float64\<close>.
\<close>

definition lattice_setup :: "real \<Rightarrow> real \<Rightarrow> real \<Rightarrow> real \<Rightarrow> int \<Rightarrow> failure + (real \<times> real \<times> real \<times> real)" where
  "lattice_setup r v q T n =
     bind_f (py_truediv T (of_int n)) (\<lambda>h.
     bind_f (np_sqrt h) (\<lambda>root.
       let u = exp ((r - q) * h + v * root);
           d = exp ((r - q) * h - v * root)
       in bind_f (np_truediv (exp ((r - q) * h) - d) (u - d)) (\<lambda>pstar.
            Inr (h, u, d, pstar))))"

text \<open>
  The loop over the terminal nodes. The state is the running \<^verbatim>\<open>price\<close> and what has been
  printed: one triple \<open>(spotT, po, prob)\<close> for each line \<^verbatim>\<open>print\<close> writes (the embedding
  keeps the three numbers, not their four-decimal text).
\<close>

fun node_loop :: "real \<Rightarrow> real \<Rightarrow> real \<Rightarrow> real \<Rightarrow> real \<Rightarrow> nat \<Rightarrow> (real \<Rightarrow> real \<Rightarrow> real) \<Rightarrow> bool
    \<Rightarrow> nat list \<Rightarrow> real \<times> (real \<times> real \<times> real) list \<Rightarrow> real \<times> (real \<times> real \<times> real) list" where
  "node_loop S K u d pstar n payoff verbose [] st = st"
| "node_loop S K u d pstar n payoff verbose (i # rest) (price, out) =
     (let prob = binom_pmf i n pstar;
          spotT = S * (u ^ i) * (d ^ (n - i));
          po = payoff spotT K
      in node_loop S K u d pstar n payoff verbose rest
           (price + po * prob, if verbose then out @ [(spotT, po, prob)] else out))"

text \<open>
  \<^verbatim>\<open>binomialPricer\<close> returns the price; the embedding returns the price together with the
  printed lines. \<^verbatim>\<open>range(nodes)\<close> is empty when \<^verbatim>\<open>nodes\<close> is not positive.
\<close>

definition binomialPricer :: "real \<Rightarrow> real \<Rightarrow> real \<Rightarrow> real \<Rightarrow> real \<Rightarrow> real \<Rightarrow> int \<Rightarrow> (real \<Rightarrow> real \<Rightarrow> real) \<Rightarrow> bool
    \<Rightarrow> failure + (real \<times> (real \<times> real \<times> real) list)" where
  "binomialPricer S K r v q T n payoff verbose =
     (let nodes = n + 1 in
      bind_f (lattice_setup r v q T n) (\<lambda>(h, u, d, pstar).
        let (price, out) = node_loop S K u d pstar (nat n) payoff verbose [0..<nat nodes] (0.0, [])
        in Inr (price * exp (- r * T), out)))"

text \<open>The price alone, as the caller of \<^verbatim>\<open>binomialPricer\<close> receives it.\<close>

definition returned :: "failure + (real \<times> (real \<times> real \<times> real) list) \<Rightarrow> failure + real" where
  "returned res = map_sum id fst res"

subsection \<open>The closed forms the code is compared with\<close>

text \<open>
  The formulas of the specification (sections 4.1 and 4.2), in its own letters: \<open>S\<close> the
  spot, \<open>K\<close> the strike, \<open>\<sigma>\<close> the volatility, \<open>r\<close> the rate, \<open>\<tau>\<close> the time to expiry,
  \<open>\<delta>\<close> the dividend yield, \<open>n\<close> the number of steps. They are not part of the program.
\<close>

definition spec_d1 :: "real \<Rightarrow> real \<Rightarrow> real \<Rightarrow> real \<Rightarrow> real \<Rightarrow> real \<Rightarrow> real" where
  "spec_d1 S K \<sigma> r \<tau> \<delta> = (ln (S / K) + (r - \<delta> + 0.5 * \<sigma>\<^sup>2) * \<tau>) / (\<sigma> * sqrt \<tau>)"

definition spec_d2 :: "real \<Rightarrow> real \<Rightarrow> real \<Rightarrow> real \<Rightarrow> real \<Rightarrow> real \<Rightarrow> real" where
  "spec_d2 S K \<sigma> r \<tau> \<delta> = spec_d1 S K \<sigma> r \<tau> \<delta> - \<sigma> * sqrt \<tau>"

definition spec_h :: "real \<Rightarrow> nat \<Rightarrow> real" where
  "spec_h \<tau> n = \<tau> / real n"

definition spec_u :: "real \<Rightarrow> real \<Rightarrow> real \<Rightarrow> real \<Rightarrow> real" where
  "spec_u r \<sigma> \<delta> h = exp ((r - \<delta>) * h + \<sigma> * sqrt h)"

definition spec_d :: "real \<Rightarrow> real \<Rightarrow> real \<Rightarrow> real \<Rightarrow> real" where
  "spec_d r \<sigma> \<delta> h = exp ((r - \<delta>) * h - \<sigma> * sqrt h)"

definition spec_pstar :: "real \<Rightarrow> real \<Rightarrow> real \<Rightarrow> real \<Rightarrow> real" where
  "spec_pstar r \<sigma> \<delta> h = (exp ((r - \<delta>) * h) - spec_d r \<sigma> \<delta> h) / (spec_u r \<sigma> \<delta> h - spec_d r \<sigma> \<delta> h)"

definition spec_lattice_price :: "real \<Rightarrow> real \<Rightarrow> real \<Rightarrow> real \<Rightarrow> real \<Rightarrow> real \<Rightarrow> nat \<Rightarrow> (real \<Rightarrow> real \<Rightarrow> real) \<Rightarrow> real" where
  "spec_lattice_price S K r \<sigma> \<delta> \<tau> n payoff =
     (let h = spec_h \<tau> n; u = spec_u r \<sigma> \<delta> h; d = spec_d r \<sigma> \<delta> h; p = spec_pstar r \<sigma> \<delta> h
      in exp (- r * \<tau>) *
         (\<Sum>i = 0..n. payoff (S * u ^ i * d ^ (n - i)) K * (real (n choose i) * p ^ i * (1 - p) ^ (n - i))))"

section \<open>Facts about the primitives\<close>

lemma bind_f_Inr: "bind_f (Inr x) k = k x"
  by (simp add: bind_f_def)

lemma bind_f_Inl: "bind_f (Inl e) k = Inl e"
  by (simp add: bind_f_def)

subsection \<open>The standard normal distribution function\<close>

text \<open>
  The power series converges everywhere and its derivative is the density \<open>exp (- x\<^sup>2 / 2)\<close>;
  it is odd, strictly increasing and bounded, so \<open>norm_cdf\<close> is a strictly increasing
  function into the open unit interval with \<open>norm_cdf (- x) = 1 - norm_cdf x\<close>.
\<close>

lemma exp_sums_real: "(\<lambda>n. (x::real) ^ n / fact n) sums exp x"
  using exp_converges [of x] by (simp add: field_simps)

lemma gauss_power_split: "(- (x\<^sup>2) / 2) ^ k = (- 1 / 2) ^ k * (x::real) ^ (2 * k)"
proof -
  have "- (x\<^sup>2) / 2 = (- 1 / 2) * x\<^sup>2"
    by simp
  then have "(- (x\<^sup>2) / 2) ^ k = ((- 1 / 2) * x\<^sup>2) ^ k"
    by (rule arg_cong)
  also have "\<dots> = (- 1 / 2) ^ k * (x\<^sup>2) ^ k"
    by (rule power_mult_distrib)
  finally show ?thesis
    by (simp only: power_mult)
qed

lemma gauss_term_odd:
  "gauss_coeff (2 * k + 1) * x ^ (2 * k + 1) = x * ((- (x\<^sup>2) / 2) ^ k / (fact k * real (2 * k + 1)))"
proof -
  have "gauss_coeff (2 * k + 1) = (- 1 / 2) ^ k / (fact k * real (2 * k + 1))"
    by (simp add: gauss_coeff_def)
  then show ?thesis
    by (simp only: gauss_power_split) simp
qed

lemma gauss_majorant_sums:
  "(\<lambda>n. if even n then 0 else \<bar>x\<bar> * ((x\<^sup>2 / 2) ^ ((n - 1) div 2) / fact ((n - 1) div 2)))
     sums (\<bar>x :: real\<bar> * exp (x\<^sup>2 / 2))"
  by (rule sums_if') (intro sums_mult exp_sums_real)

lemma gauss_term_bound:
  "norm (gauss_coeff n * x ^ n)
     \<le> (if even n then 0 else \<bar>x\<bar> * ((x\<^sup>2 / 2) ^ ((n - 1) div 2) / fact ((n - 1) div 2)))"
proof (cases "even n")
  case True
  then show ?thesis by (simp add: gauss_coeff_def)
next
  case False
  then obtain k where n: "n = 2 * k + 1"
    by (auto elim: oddE)
  have "norm (gauss_coeff n * x ^ n) = \<bar>x\<bar> * ((x\<^sup>2 / 2) ^ k / (fact k * real (2 * k + 1)))"
    unfolding n gauss_term_odd
    by (simp add: abs_mult power_abs abs_divide power_divide)
  also have "\<dots> \<le> \<bar>x\<bar> * ((x\<^sup>2 / 2) ^ k / fact k)"
  proof -
    have "(fact k :: real) \<le> fact k * real (2 * k + 1)"
      by simp
    then have "(x\<^sup>2 / 2) ^ k / (fact k * real (2 * k + 1)) \<le> (x\<^sup>2 / 2) ^ k / fact k"
      by (intro divide_left_mono) simp_all
    then show ?thesis
      by (intro mult_left_mono) simp_all
  qed
  finally show ?thesis
    using False n by simp
qed

lemma gauss_summable: "summable (\<lambda>n. gauss_coeff n * x ^ n)"
  by (rule summable_comparison_test' [where N = 0, OF sums_summable [OF gauss_majorant_sums]])
     (rule gauss_term_bound)

lemma diffs_gauss_coeff:
  "diffs gauss_coeff n * x ^ n = (if even n then (- (x\<^sup>2) / 2) ^ (n div 2) / fact (n div 2) else 0)"
proof (cases "even n")
  case True
  then obtain k where n: "n = 2 * k" by (auto elim: evenE)
  have "diffs gauss_coeff (2 * k) = (- 1 / 2) ^ k / fact k"
    by (simp add: diffs_def gauss_coeff_def)
  then show ?thesis
    unfolding n by (simp only: gauss_power_split) simp
next
  case False
  then show ?thesis by (simp add: diffs_def gauss_coeff_def)
qed

lemma diffs_gauss_sums: "(\<lambda>n. diffs gauss_coeff n * x ^ n) sums exp (- (x\<^sup>2) / 2)"
proof -
  have "(\<lambda>n. if even n then (- (x\<^sup>2) / 2) ^ (n div 2) / fact (n div 2) else 0)
          sums (0 + exp (- (x\<^sup>2) / 2))"
    using sums_if [OF sums_zero exp_sums_real [of "- (x\<^sup>2) / 2"]] by simp
  then show ?thesis
    by (simp only: diffs_gauss_coeff add_0)
qed

lemma DERIV_gauss_integral: "DERIV gauss_integral x :> exp (- (x\<^sup>2) / 2)"
proof -
  have "((\<lambda>x. \<Sum>n. gauss_coeff n * x ^ n) has_field_derivative (\<Sum>n. diffs gauss_coeff n * x ^ n)) (at x)"
    by (rule termdiffs_strong_converges_everywhere) (rule gauss_summable)
  moreover have "(\<Sum>n. diffs gauss_coeff n * x ^ n) = exp (- (x\<^sup>2) / 2)"
    using diffs_gauss_sums by (rule sums_unique [symmetric])
  moreover have "gauss_integral = (\<lambda>x. \<Sum>n. gauss_coeff n * x ^ n)"
    by (rule ext) (simp add: gauss_integral_def)
  ultimately show ?thesis by simp
qed

lemma gauss_integral_zero: "gauss_integral 0 = 0"
proof -
  have "gauss_coeff n * 0 ^ n = 0" for n
    by (cases n) (simp_all add: gauss_coeff_def)
  then have "(\<Sum>n. gauss_coeff n * 0 ^ n) = (\<Sum>n::nat. 0 :: real)"
    by (simp only:)
  then show ?thesis
    by (simp only: gauss_integral_def suminf_zero)
qed

lemma gauss_integral_minus: "gauss_integral (- x) = - gauss_integral x"
proof -
  have "gauss_coeff n * (- x) ^ n = - (gauss_coeff n * x ^ n)" for n
    by (cases "even n") (simp_all add: gauss_coeff_def)
  then have "gauss_integral (- x) = (\<Sum>n. - (gauss_coeff n * x ^ n))"
    by (simp add: gauss_integral_def)
  also have "\<dots> = - (\<Sum>n. gauss_coeff n * x ^ n)"
    by (rule suminf_minus) (rule gauss_summable)
  finally show ?thesis
    by (simp add: gauss_integral_def)
qed

lemma gauss_integral_strict_mono:
  assumes "a < b"
  shows "gauss_integral a < gauss_integral b"
proof (rule DERIV_pos_imp_increasing [OF assms])
  fix x
  show "\<exists>y. DERIV gauss_integral x :> y \<and> 0 < y"
    using DERIV_gauss_integral [of x] by (intro exI [of _ "exp (- (x\<^sup>2) / 2)"]) simp
qed

lemma gauss_density_le: "exp (- (x\<^sup>2) / 2) \<le> 2 * inverse (1 + x\<^sup>2)" for x :: real
proof -
  have "(1 + x\<^sup>2) / 2 \<le> 1 + x\<^sup>2 / 2"
    by (simp add: field_simps)
  also have "\<dots> \<le> exp (x\<^sup>2 / 2)"
    by (rule exp_ge_add_one_self)
  finally have le: "(1 + x\<^sup>2) / 2 \<le> exp (x\<^sup>2 / 2)" .
  have pos: "0 < (1 + x\<^sup>2) / 2"
    by (simp add: add_pos_nonneg)
  have "exp (- (x\<^sup>2) / 2) = inverse (exp (x\<^sup>2 / 2))"
    by (simp add: exp_minus)
  also have "\<dots> \<le> inverse ((1 + x\<^sup>2) / 2)"
    using le pos by (rule le_imp_inverse_le)
  also have "\<dots> = 2 * inverse (1 + x\<^sup>2)"
    by (simp add: inverse_eq_divide)
  finally show ?thesis .
qed

lemma gauss_integral_le_arctan:
  assumes "0 \<le> x"
  shows "gauss_integral x \<le> 2 * arctan x"
proof -
  have "2 * arctan 0 - gauss_integral 0 \<le> 2 * arctan x - gauss_integral x"
  proof (rule DERIV_nonneg_imp_nondecreasing [OF assms])
    fix t :: real
    have "((\<lambda>t. 2 * arctan t) has_real_derivative 2 * inverse (1 + t\<^sup>2)) (at t)"
      by (rule DERIV_cmult [OF DERIV_arctan])
    then have "((\<lambda>t. 2 * arctan t - gauss_integral t) has_real_derivative
            (2 * inverse (1 + t\<^sup>2) - exp (- (t\<^sup>2) / 2))) (at t)"
      by (rule DERIV_diff [OF _ DERIV_gauss_integral])
    moreover have "0 \<le> 2 * inverse (1 + t\<^sup>2) - exp (- (t\<^sup>2) / 2)"
      using gauss_density_le [of t] by simp
    ultimately show "\<exists>y. ((\<lambda>t. 2 * arctan t - gauss_integral t) has_real_derivative y) (at t) \<and> 0 \<le> y"
      by blast
  qed
  then show ?thesis
    by (simp add: gauss_integral_zero)
qed

lemma gauss_integral_less_pi: "gauss_integral x < pi"
proof (cases "0 \<le> x")
  case True
  have "2 * arctan x < pi"
    using arctan_ubound [of x] by simp
  with gauss_integral_le_arctan [OF True] show ?thesis
    by simp
next
  case False
  then have "gauss_integral x < gauss_integral 0"
    by (intro gauss_integral_strict_mono) simp
  also have "\<dots> < pi"
    by (simp add: gauss_integral_zero)
  finally show ?thesis .
qed

lemma gauss_integral_bdd_above: "bdd_above (range gauss_integral)"
  by (rule bdd_aboveI [of _ pi]) (auto intro: less_imp_le gauss_integral_less_pi)

lemma gauss_integral_less_half_mass: "gauss_integral x < gauss_half_mass"
proof -
  have "gauss_integral x < gauss_integral (x + 1)"
    by (rule gauss_integral_strict_mono) simp
  also have "\<dots> \<le> gauss_half_mass"
    unfolding gauss_half_mass_def
    by (rule cSUP_upper [OF UNIV_I gauss_integral_bdd_above])
  finally show ?thesis .
qed

lemma gauss_half_mass_pos: "0 < gauss_half_mass"
  using gauss_integral_less_half_mass [of 0] by (simp add: gauss_integral_zero)

lemma norm_cdf_zero: "norm_cdf 0 = 1 / 2"
  by (simp add: norm_cdf_def gauss_integral_zero)

lemma norm_cdf_minus: "norm_cdf (- x) = 1 - norm_cdf x"
  by (simp add: norm_cdf_def gauss_integral_minus)

lemma norm_cdf_less_one: "norm_cdf x < 1"
proof -
  have "gauss_integral x / (2 * gauss_half_mass) < 1 / 2"
    using gauss_integral_less_half_mass [of x] gauss_half_mass_pos
    by (simp add: field_simps)
  then show ?thesis
    by (simp add: norm_cdf_def)
qed

lemma norm_cdf_pos: "0 < norm_cdf x"
  using norm_cdf_less_one [of "- x"] by (simp add: norm_cdf_minus)

lemma norm_cdf_strict_mono: "a < b \<Longrightarrow> norm_cdf a < norm_cdf b"
  using gauss_half_mass_pos
  by (simp add: norm_cdf_def divide_strict_right_mono gauss_integral_strict_mono)

lemma DERIV_norm_cdf: "DERIV norm_cdf x :> exp (- (x\<^sup>2) / 2) / (2 * gauss_half_mass)"
proof -
  have "((\<lambda>x. 1 / 2 + gauss_integral x / (2 * gauss_half_mass)) has_real_derivative
          (0 + exp (- (x\<^sup>2) / 2) / (2 * gauss_half_mass))) (at x)"
    by (intro DERIV_add DERIV_const DERIV_cdivide DERIV_gauss_integral)
  moreover have "norm_cdf = (\<lambda>x. 1 / 2 + gauss_integral x / (2 * gauss_half_mass))"
    by (rule ext) (simp add: norm_cdf_def)
  ultimately show ?thesis by simp
qed

section \<open>What each function returns, on every input\<close>

lemma d1_line_cases:
  "d1_line spot strike vol rate expiry dv =
     (if strike = 0 then Inl ZeroDivisionError
      else if spot / strike \<le> 0 \<or> expiry \<le> 0 \<or> vol = 0 then Inl NotFinite
      else Inr ((ln (spot / strike) + (rate - dv + 0.5 * vol * vol) * expiry) / (vol * sqrt expiry)))"
  by (auto simp add: d1_line_def py_truediv_def np_log_def np_sqrt_def np_truediv_def
      bind_f_Inr bind_f_Inl)

lemma node_loop_eq:
  "node_loop S K u d p n payoff verbose xs (price, out) =
     (price + (\<Sum>i\<leftarrow>xs. payoff (S * u ^ i * d ^ (n - i)) K * binom_pmf i n p),
      if verbose
      then out @ map (\<lambda>i. (S * u ^ i * d ^ (n - i), payoff (S * u ^ i * d ^ (n - i)) K, binom_pmf i n p)) xs
      else out)"
  by (induction xs arbitrary: price out) (simp_all add: Let_def add.assoc)

lemma node_loop_price:
  "fst (node_loop S K u d p n payoff verbose [0..<m] (0, [])) =
     (\<Sum>i = 0..<m. payoff (S * u ^ i * d ^ (n - i)) K * binom_pmf i n p)"
  by (simp add: node_loop_eq interv_sum_list_conv_sum_set_nat)

lemma lattice_setup_cases:
  "lattice_setup r v q T n =
     (if n = 0 then Inl ZeroDivisionError
      else if T / of_int n \<le> 0 \<or> v = 0 then Inl NotFinite
      else Inr (T / of_int n,
                exp ((r - q) * (T / of_int n) + v * sqrt (T / of_int n)),
                exp ((r - q) * (T / of_int n) - v * sqrt (T / of_int n)),
                (exp ((r - q) * (T / of_int n)) - exp ((r - q) * (T / of_int n) - v * sqrt (T / of_int n)))
                / (exp ((r - q) * (T / of_int n) + v * sqrt (T / of_int n))
                   - exp ((r - q) * (T / of_int n) - v * sqrt (T / of_int n)))))"
proof -
  consider "n = 0" | "n \<noteq> 0" "T / of_int n < 0" | "n \<noteq> 0" "T / of_int n = 0"
    | "n \<noteq> 0" "0 < T / of_int n" "v = 0" | "n \<noteq> 0" "0 < T / of_int n" "v \<noteq> 0"
    by fastforce
  then show ?thesis
  proof cases
    case 1
    then show ?thesis
      by (simp add: lattice_setup_def py_truediv_def bind_f_Inl)
  next
    case 2
    then show ?thesis
      by (simp add: lattice_setup_def py_truediv_def np_sqrt_def bind_f_Inl bind_f_Inr)
  next
    case 3
    then have "T = 0" by simp
    with 3 show ?thesis
      by (simp add: lattice_setup_def py_truediv_def np_sqrt_def np_truediv_def bind_f_Inl bind_f_Inr)
  next
    case 4
    then show ?thesis
      by (simp add: lattice_setup_def py_truediv_def np_sqrt_def np_truediv_def bind_f_Inl bind_f_Inr
          Let_def)
  next
    case 5
    then have "sqrt (T / of_int n) \<noteq> 0"
      by (simp only: real_sqrt_eq_zero_cancel_iff)
    with 5 have "v * sqrt (T / of_int n) \<noteq> 0"
      by simp
    then have "exp ((r - q) * (T / of_int n) + v * sqrt (T / of_int n))
        - exp ((r - q) * (T / of_int n) - v * sqrt (T / of_int n)) \<noteq> 0"
      by simp
    with 5 show ?thesis
      by (simp add: lattice_setup_def py_truediv_def np_sqrt_def np_truediv_def bind_f_Inl bind_f_Inr
          Let_def not_le)
  qed
qed

lemma blackScholesCall_cases:
  "blackScholesCall spot strike vol rate expiry dv =
     (if strike = 0 then Inl ZeroDivisionError
      else if spot / strike \<le> 0 \<or> expiry \<le> 0 \<or> vol = 0 then Inl NotFinite
      else Inr (spot * exp (- dv * expiry) * norm_cdf (spec_d1 spot strike vol rate expiry dv)
                - strike * exp (- rate * expiry) * norm_cdf (spec_d2 spot strike vol rate expiry dv)))"
  by (simp add: blackScholesCall_def d1_line_cases bind_f_Inl bind_f_Inr Let_def
      spec_d1_def spec_d2_def power2_eq_square)

lemma bsmCallDelta_cases:
  "bsmCallDelta spot strike vol rate tau dv =
     (if strike = 0 then Inl ZeroDivisionError
      else if spot / strike \<le> 0 \<or> tau \<le> 0 \<or> vol = 0 then Inl NotFinite
      else Inr (exp (- dv * tau) * norm_cdf (spec_d1 spot strike vol rate tau dv)))"
  by (simp add: bsmCallDelta_def d1_line_cases bind_f_Inl bind_f_Inr Let_def
      spec_d1_def power2_eq_square)

lemma bsmPutDelta_cases:
  "bsmPutDelta spot strike vol rate tau dv =
     (if strike = 0 then Inl ZeroDivisionError
      else if spot / strike \<le> 0 \<or> tau \<le> 0 \<or> vol = 0 then Inl NotFinite
      else Inr (exp (- dv * tau) * norm_cdf (- spec_d1 spot strike vol rate tau dv)))"
  by (simp add: bsmPutDelta_def d1_line_cases bind_f_Inl bind_f_Inr Let_def
      spec_d1_def power2_eq_square)

lemma binomialPricer_cases:
  "returned (binomialPricer S K r v q T n payoff verbose) =
     (if n = 0 then Inl ZeroDivisionError
      else if T / of_int n \<le> 0 \<or> v = 0 then Inl NotFinite
      else Inr (exp (- r * T) *
             (\<Sum>i = 0..<nat (n + 1).
                 payoff (S * spec_u r v q (T / of_int n) ^ i * spec_d r v q (T / of_int n) ^ (nat n - i)) K
                 * binom_pmf i (nat n) (spec_pstar r v q (T / of_int n)))))"
proof -
  have split: "(case node_loop S K u d p m payoff verbose xs (0, []) of (price, out) \<Rightarrow> Inr (price * c, out))
      = Inr (fst (node_loop S K u d p m payoff verbose xs (0, [])) * c,
             snd (node_loop S K u d p m payoff verbose xs (0, [])))"
    for u d p m xs c
    by (simp add: case_prod_beta)
  show ?thesis
    by (simp add: returned_def binomialPricer_def lattice_setup_cases bind_f_Inl bind_f_Inr Let_def
        split node_loop_price spec_u_def spec_d_def spec_pstar_def mult.commute)
qed

lemma binomialPricer_valid:
  assumes "1 \<le> n" "0 < T" "v \<noteq> 0"
  shows "returned (binomialPricer S K r v q T n payoff verbose) =
     Inr (spec_lattice_price S K r v q T (nat n) payoff)"
proof -
  have n: "n \<noteq> 0" "0 < T / of_int n" "nat (n + 1) = Suc (nat n)" "real (nat n) = of_int n"
    using assms by simp_all
  have "{0..<Suc (nat n)} = {0..nat n}"
    by (rule atLeastLessThanSuc_atLeastAtMost)
  with n assms show ?thesis
    by (simp add: binomialPricer_cases spec_lattice_price_def Let_def spec_h_def binom_pmf_def
        not_le)
qed

text \<open>What \<^verbatim>\<open>verbose\<close> does: one printed line for each terminal node, or none.\<close>

lemma binomialPricer_printed:
  assumes "1 \<le> n" "0 < T" "v \<noteq> 0"
  shows "map_sum id (length \<circ> snd) (binomialPricer S K r v q T n payoff verbose)
         = Inr (if verbose then nat (n + 1) else 0)"
proof -
  have ok: "n \<noteq> 0" "\<not> T / of_int n \<le> 0"
    using assms by (simp_all add: not_le)
  have split: "(case node_loop S K u d p m payoff verbose xs (0, []) of (price, out) \<Rightarrow> Inr (price * c, out))
      = Inr (fst (node_loop S K u d p m payoff verbose xs (0, [])) * c,
             snd (node_loop S K u d p m payoff verbose xs (0, [])))"
    for u d p m xs c
    by (simp add: case_prod_beta)
  show ?thesis
    using ok assms(3)
    by (simp add: binomialPricer_def lattice_setup_cases bind_f_Inr Let_def split node_loop_eq)
qed

section \<open>The lattice: move sizes, probabilities, parity\<close>

lemma spec_moves_order:
  assumes "0 < \<sigma>" "0 < h"
  shows "spec_d r \<sigma> \<delta> h < exp ((r - \<delta>) * h)" "exp ((r - \<delta>) * h) < spec_u r \<sigma> \<delta> h"
proof -
  have "0 < \<sigma> * sqrt h"
    using assms by simp
  then show "spec_d r \<sigma> \<delta> h < exp ((r - \<delta>) * h)" "exp ((r - \<delta>) * h) < spec_u r \<sigma> \<delta> h"
    by (simp_all add: spec_d_def spec_u_def)
qed

lemma spec_pstar_unit:
  assumes "\<sigma> \<noteq> 0" "0 < h"
  shows "0 < spec_pstar r \<sigma> \<delta> h" "spec_pstar r \<sigma> \<delta> h < 1"
proof -
  have root: "0 < sqrt h"
    using assms by simp
  show "0 < spec_pstar r \<sigma> \<delta> h"
  proof (cases "0 < \<sigma>")
    case True
    then have "0 < \<sigma> * sqrt h" using root by simp
    then show ?thesis
      by (simp add: spec_pstar_def spec_d_def spec_u_def)
  next
    case False
    then have "\<sigma> * sqrt h < 0" using root assms mult_neg_pos [of \<sigma> "sqrt h"] by simp
    then show ?thesis
      by (simp add: spec_pstar_def spec_d_def spec_u_def zero_less_divide_iff)
  qed
  show "spec_pstar r \<sigma> \<delta> h < 1"
  proof (cases "0 < \<sigma>")
    case True
    then have "0 < \<sigma> * sqrt h" using root by simp
    then show ?thesis
      by (simp add: spec_pstar_def spec_d_def spec_u_def)
  next
    case False
    then have "\<sigma> * sqrt h < 0" using root assms mult_neg_pos [of \<sigma> "sqrt h"] by simp
    then show ?thesis
      by (simp add: spec_pstar_def spec_d_def spec_u_def divide_less_eq)
  qed
qed

lemma spec_pstar_mean:
  assumes "\<sigma> \<noteq> 0" "0 < h"
  shows "spec_pstar r \<sigma> \<delta> h * spec_u r \<sigma> \<delta> h + (1 - spec_pstar r \<sigma> \<delta> h) * spec_d r \<sigma> \<delta> h
         = exp ((r - \<delta>) * h)"
proof -
  have "\<sigma> * sqrt h \<noteq> 0"
    using assms by simp
  then have ne: "spec_u r \<sigma> \<delta> h - spec_d r \<sigma> \<delta> h \<noteq> 0"
    by (simp add: spec_u_def spec_d_def)
  have "spec_pstar r \<sigma> \<delta> h * (spec_u r \<sigma> \<delta> h - spec_d r \<sigma> \<delta> h)
        = exp ((r - \<delta>) * h) - spec_d r \<sigma> \<delta> h"
    using ne by (simp add: spec_pstar_def)
  then show ?thesis
    by (simp add: algebra_simps)
qed

lemma lattice_setup_pstar:
  assumes "lattice_setup r v q T n = Inr (h, u, d, pstar)"
  shows "0 < pstar \<and> pstar < 1"
proof -
  from assms have ok: "n \<noteq> 0" "0 < T / of_int n" "v \<noteq> 0"
    by (auto simp add: lattice_setup_cases not_le split: if_splits)
  then have "lattice_setup r v q T n = Inr (T / of_int n, spec_u r v q (T / of_int n),
      spec_d r v q (T / of_int n), spec_pstar r v q (T / of_int n))"
    by (simp add: lattice_setup_cases not_le spec_pstar_def spec_u_def spec_d_def)
  with assms have "pstar = spec_pstar r v q (T / of_int n)"
    by auto
  then show ?thesis
    using spec_pstar_unit [OF ok(3,2)] by simp
qed

lemma binomial_total:
  "(\<Sum>i = 0..n. real (n choose i) * p ^ i * (1 - p) ^ (n - i)) = 1"
proof -
  have "(p + (1 - p)) ^ n = (\<Sum>i\<le>n. of_nat (n choose i) * p ^ i * (1 - p) ^ (n - i))"
    by (rule binomial_ring)
  then show ?thesis
    by (simp add: atMost_atLeast0)
qed

lemma binomial_mean:
  "(\<Sum>i = 0..n. (u ^ i * d ^ (n - i)) * (real (n choose i) * p ^ i * (1 - p) ^ (n - i)))
     = (p * u + (1 - p) * d) ^ n"
proof -
  have "(p * u + (1 - p) * d) ^ n
        = (\<Sum>i\<le>n. of_nat (n choose i) * (p * u) ^ i * ((1 - p) * d) ^ (n - i))"
    by (rule binomial_ring)
  also have "\<dots> = (\<Sum>i\<le>n. (u ^ i * d ^ (n - i)) * (real (n choose i) * p ^ i * (1 - p) ^ (n - i)))"
    by (rule sum.cong) (simp_all add: power_mult_distrib)
  finally show ?thesis
    by (simp add: atMost_atLeast0)
qed

lemma payoff_difference: "callPayoff s k - putPayoff s k = s - k"
  by (simp add: callPayoff_def putPayoff_def max_def)

lemma lattice_parity:
  assumes "0 < n" "0 < \<tau>" "\<sigma> \<noteq> 0"
  shows "spec_lattice_price S K r \<sigma> \<delta> \<tau> n callPayoff - spec_lattice_price S K r \<sigma> \<delta> \<tau> n putPayoff
         = S * exp (- \<delta> * \<tau>) - K * exp (- r * \<tau>)"
proof -
  define h where "h = spec_h \<tau> n"
  define u where "u = spec_u r \<sigma> \<delta> h"
  define d where "d = spec_d r \<sigma> \<delta> h"
  define p where "p = spec_pstar r \<sigma> \<delta> h"
  define w where "w = (\<lambda>i. real (n choose i) * p ^ i * (1 - p) ^ (n - i))"
  have h: "0 < h" "real n * h = \<tau>"
    using assms by (simp_all add: h_def spec_h_def)
  have mean: "p * u + (1 - p) * d = exp ((r - \<delta>) * h)"
    unfolding p_def u_def d_def by (rule spec_pstar_mean [OF assms(3) h(1)])
  have "spec_lattice_price S K r \<sigma> \<delta> \<tau> n callPayoff - spec_lattice_price S K r \<sigma> \<delta> \<tau> n putPayoff
        = exp (- r * \<tau>) * ((\<Sum>i = 0..n. callPayoff (S * u ^ i * d ^ (n - i)) K * w i)
                            - (\<Sum>i = 0..n. putPayoff (S * u ^ i * d ^ (n - i)) K * w i))"
    by (simp add: spec_lattice_price_def Let_def h_def u_def d_def p_def w_def right_diff_distrib)
  also have "(\<Sum>i = 0..n. callPayoff (S * u ^ i * d ^ (n - i)) K * w i)
             - (\<Sum>i = 0..n. putPayoff (S * u ^ i * d ^ (n - i)) K * w i)
             = (\<Sum>i = 0..n. (S * u ^ i * d ^ (n - i) - K) * w i)"
    by (simp add: sum_subtractf [symmetric] left_diff_distrib [symmetric] payoff_difference)
  also have "\<dots> = S * (\<Sum>i = 0..n. (u ^ i * d ^ (n - i)) * w i) - K * (\<Sum>i = 0..n. w i)"
    by (simp add: sum_distrib_left sum_subtractf left_diff_distrib mult.assoc)
  also have "(\<Sum>i = 0..n. (u ^ i * d ^ (n - i)) * w i) = (p * u + (1 - p) * d) ^ n"
    unfolding w_def by (rule binomial_mean)
  also have "(\<Sum>i = 0..n. w i) = 1"
    unfolding w_def by (rule binomial_total)
  also have "(p * u + (1 - p) * d) ^ n = exp ((r - \<delta>) * \<tau>)"
  proof -
    have "(p * u + (1 - p) * d) ^ n = exp (real n * ((r - \<delta>) * h))"
      by (simp only: mean exp_of_nat_mult)
    also have "real n * ((r - \<delta>) * h) = (r - \<delta>) * (real n * h)"
      by simp
    finally show ?thesis
      by (simp only: h(2))
  qed
  also have "exp (- r * \<tau>) * (S * exp ((r - \<delta>) * \<tau>) - K * 1) = S * exp (- \<delta> * \<tau>) - K * exp (- r * \<tau>)"
  proof -
    have "exp (- r * \<tau>) * exp ((r - \<delta>) * \<tau>) = exp (- \<delta> * \<tau>)"
      by (simp add: exp_add [symmetric] algebra_simps)
    then have "exp (- r * \<tau>) * (S * exp ((r - \<delta>) * \<tau>)) = S * exp (- \<delta> * \<tau>)"
      by (simp only: mult.left_commute)
    then show ?thesis
      by (simp add: right_diff_distrib mult.commute)
  qed
  finally show ?thesis .
qed

lemma lattice_price_nonneg:
  assumes "0 < \<tau>" "\<sigma> \<noteq> 0" "0 < n" "\<And>s k. 0 \<le> payoff s k"
  shows "0 \<le> spec_lattice_price S K r \<sigma> \<delta> \<tau> n payoff"
proof -
  have h: "0 < spec_h \<tau> n"
    using assms by (simp add: spec_h_def)
  have p: "0 \<le> spec_pstar r \<sigma> \<delta> (spec_h \<tau> n)" "0 \<le> 1 - spec_pstar r \<sigma> \<delta> (spec_h \<tau> n)"
    using spec_pstar_unit [OF assms(2) h, of r \<delta>] by simp_all
  show ?thesis
    unfolding spec_lattice_price_def Let_def
    by (intro mult_nonneg_nonneg sum_nonneg assms(4) zero_le_power p) simp_all
qed

section \<open>The claims\<close>

subsection \<open>Analytic price\<close>

text \<open>
  C1. For valid parameters (spot, strike, volatility and time to expiry positive, dividend
  yield not negative, any rate) \<open>blackScholesCall\<close> returns
  \<open>S * exp (- \<delta> * \<tau>) * N d1 - K * exp (- r * \<tau>) * N d2\<close>, where
  \<open>d1 = (ln (S / K) + (r - \<delta> + 0.5 * \<sigma>\<^sup>2) * \<tau>) / (\<sigma> * sqrt \<tau>)\<close>, \<open>d2 = d1 - \<sigma> * sqrt \<tau>\<close> and
  \<open>N\<close> is the standard normal distribution function.
\<close>

theorem blackScholesCall_formula:
  assumes "0 < spot" "0 < strike" "0 < vol" "0 < expiry" "0 \<le> dv"
  shows "blackScholesCall spot strike vol rate expiry dv =
     Inr (let d1 = (ln (spot / strike) + (rate - dv + 0.5 * vol\<^sup>2) * expiry) / (vol * sqrt expiry);
              d2 = d1 - vol * sqrt expiry
          in spot * exp (- dv * expiry) * norm_cdf d1 - strike * exp (- rate * expiry) * norm_cdf d2)"
  using assms
  by (simp add: blackScholesCall_cases spec_d1_def spec_d2_def Let_def not_le)

text \<open>
  At spot 40, strike 40, volatility 0.3, rate 0.03, one year and yield 0.075 the drift term
  vanishes, so \<open>d1 = 0\<close> and \<open>d2 = - 0.3\<close>.
\<close>

theorem blackScholesCall_formula_witness:
  "blackScholesCall 40 40 0.3 0.03 1 0.075 =
     Inr (20 * exp (- 0.075) - 40 * exp (- 0.03) * norm_cdf (- 0.3))"
  using blackScholesCall_formula [of 40 40 "0.3" 1 "0.075" "0.03"]
  by (simp add: Let_def norm_cdf_zero power2_eq_square)

subsection \<open>Lattice price\<close>

text \<open>
  C2. For valid parameters and \<open>n \<ge> 1\<close> steps \<open>binomialPricer\<close> computes \<open>h = \<tau> / n\<close>,
  \<open>u = exp ((r - q) * h + \<sigma> * sqrt h)\<close>, \<open>d = exp ((r - q) * h - \<sigma> * sqrt h)\<close>,
  \<open>p* = (exp ((r - q) * h) - d) / (u - d)\<close> and returns \<open>exp (- r * \<tau>)\<close> times the sum, over the
  \<open>n + 1\<close> terminal nodes \<open>i = 0, \<dots>, n\<close>, of the payoff at \<open>S * u ^ i * d ^ (n - i)\<close> times
  \<open>C(n, i) * p* ^ i * (1 - p*) ^ (n - i)\<close>: one pass over the terminal layer.
\<close>

theorem binomialPricer_lattice_sum:
  assumes "0 < S" "0 < K" "0 < v" "0 < T" "0 \<le> q" "1 \<le> n"
  shows "returned (binomialPricer S K r v q T n payoff verbose) =
     Inr (let h = T / of_int n;
              u = exp ((r - q) * h + v * sqrt h);
              d = exp ((r - q) * h - v * sqrt h);
              pstar = (exp ((r - q) * h) - d) / (u - d)
          in exp (- r * T) *
             (\<Sum>i = 0..nat n. payoff (S * u ^ i * d ^ (nat n - i)) K
                 * (real (nat n choose i) * pstar ^ i * (1 - pstar) ^ (nat n - i))))"
proof -
  have "v \<noteq> 0" "real (nat n) = of_int n"
    using assms by simp_all
  then show ?thesis
    using binomialPricer_valid [OF assms(6,4), of v S K r q payoff verbose]
    by (simp add: spec_lattice_price_def spec_h_def spec_u_def spec_d_def spec_pstar_def Let_def)
qed

text \<open>
  One step over one year, spot 41, strike 40, rate 0.08, volatility 0.3: two terminal nodes.
\<close>

theorem binomialPricer_lattice_sum_witness:
  "returned (binomialPricer 41 40 0.08 0.3 0 1 1 callPayoff True) =
     Inr (exp (- 0.08) *
          (callPayoff (41 * exp (- 0.22)) 40 * (1 - (exp 0.08 - exp (- 0.22)) / (exp 0.38 - exp (- 0.22)))
           + callPayoff (41 * exp 0.38) 40 * ((exp 0.08 - exp (- 0.22)) / (exp 0.38 - exp (- 0.22)))))"
  using binomialPricer_lattice_sum [of 41 40 "0.3" 1 0 1 "0.08" callPayoff True]
  by (simp add: Let_def)

subsection \<open>Deltas\<close>

text \<open>
  C3. For valid parameters \<open>bsmCallDelta\<close> returns \<open>exp (- \<delta> * \<tau>) * N d1\<close> and
  \<open>bsmPutDelta\<close> returns \<open>exp (- \<delta> * \<tau>) * N (- d1)\<close>, with the \<open>d1\<close> of the price formula.
\<close>

theorem bsm_delta_formulas:
  assumes "0 < spot" "0 < strike" "0 < vol" "0 < tau" "0 \<le> dv"
  shows "bsmCallDelta spot strike vol rate tau dv =
           Inr (exp (- dv * tau)
                * norm_cdf ((ln (spot / strike) + (rate - dv + 0.5 * vol\<^sup>2) * tau) / (vol * sqrt tau)))
       \<and> bsmPutDelta spot strike vol rate tau dv =
           Inr (exp (- dv * tau)
                * norm_cdf (- ((ln (spot / strike) + (rate - dv + 0.5 * vol\<^sup>2) * tau) / (vol * sqrt tau))))"
  using assms
  by (simp add: bsmCallDelta_cases bsmPutDelta_cases spec_d1_def not_le)

text \<open>
  Where \<open>d1 = 0\<close> both deltas are half the dividend discount factor.
\<close>

theorem bsm_delta_formulas_witness:
  "bsmCallDelta 40 40 0.3 0.03 1 0.075 = Inr (exp (- 0.075) / 2)
   \<and> bsmPutDelta 40 40 0.3 0.03 1 0.075 = Inr (exp (- 0.075) / 2)"
  using bsm_delta_formulas [of 40 40 "0.3" 1 "0.075" "0.03"]
  by (simp add: norm_cdf_zero power2_eq_square)

subsection \<open>Invalid parameters\<close>

text \<open>
  C4 claims that a volatility, a time to expiry, a spot or a strike that is not positive
  makes either pricer raise \<open>InvalidParameter\<close> before it computes anything. The code
  has no such check and no such exception. With volatility \<open>- 1\<close> (spot and strike 1,
  rate \<open>- 1 / 2\<close>, one year, no dividend) \<open>blackScholesCall\<close> computes \<open>d1 = 0\<close>, \<open>d2 = 1\<close>
  and returns a number.
\<close>

theorem invalid_volatility_counterexample:
  "blackScholesCall 1 1 (- 1) (- 1 / 2) 1 0 = Inr (1 / 2 - exp (1 / 2) * norm_cdf 1)"
  by (simp add: blackScholesCall_cases spec_d1_def spec_d2_def norm_cdf_zero)

text \<open>
  C4, as the code has it. Neither pricer validates its parameters. \<open>blackScholesCall\<close>
  returns the closed form whenever the strike is not zero, spot / strike is positive, the
  time to expiry is positive and the volatility is not zero (so also for a negative
  volatility, and for a negative spot with a negative strike); a zero strike raises Python's
  \<open>ZeroDivisionError\<close>; on the other inputs numpy takes a logarithm, a square root or a
  quotient outside the reals and goes on with \<^verbatim>\<open>nan\<close> or \<^verbatim>\<open>inf\<close> without raising. With
  \<open>n \<ge> 1\<close> steps \<open>binomialPricer\<close> returns the lattice sum for every spot and strike
  whenever the time to expiry is positive and the volatility is not zero, and otherwise goes
  on with \<^verbatim>\<open>nan\<close> the same way.
\<close>

theorem pricers_unvalidated:
  assumes "1 \<le> n"
  shows "blackScholesCall spot strike vol rate expiry dv =
           (if strike = 0 then Inl ZeroDivisionError
            else if spot / strike \<le> 0 \<or> expiry \<le> 0 \<or> vol = 0 then Inl NotFinite
            else Inr (spot * exp (- dv * expiry) * norm_cdf (spec_d1 spot strike vol rate expiry dv)
                      - strike * exp (- rate * expiry) * norm_cdf (spec_d2 spot strike vol rate expiry dv)))
       \<and> returned (binomialPricer S K r v q T n payoff verbose) =
           (if T \<le> 0 \<or> v = 0 then Inl NotFinite
            else Inr (spec_lattice_price S K r v q T (nat n) payoff))"
proof -
  have "returned (binomialPricer S K r v q T n payoff verbose) =
           (if T \<le> 0 \<or> v = 0 then Inl NotFinite
            else Inr (spec_lattice_price S K r v q T (nat n) payoff))"
  proof (cases "T \<le> 0 \<or> v = 0")
    case True
    moreover have "n \<noteq> 0" "T / of_int n \<le> 0 \<longleftrightarrow> T \<le> 0"
      using assms by (simp_all add: divide_le_0_iff)
    ultimately show ?thesis
      by (simp add: binomialPricer_cases)
  next
    case False
    then show ?thesis
      using binomialPricer_valid [OF assms, of T v S K r q payoff verbose] by simp
  qed
  then show ?thesis
    by (simp only: blackScholesCall_cases simp_thms)
qed

text \<open>
  A zero strike, a zero volatility, and a zero time to expiry on ten steps.
\<close>

theorem pricers_unvalidated_witness:
  "blackScholesCall 41 0 0.3 0.08 0.25 0 = Inl ZeroDivisionError
   \<and> blackScholesCall 41 40 0 0.08 0.25 0 = Inl NotFinite
   \<and> returned (binomialPricer 41 40 0.08 0.3 0 0 10 callPayoff False) = Inl NotFinite"
  using pricers_unvalidated [of 10 41 0 "0.3" "0.08" "0.25" 0 41 40 "0.08" "0.3" 0 0 callPayoff False]
    pricers_unvalidated [of 10 41 40 0 "0.08" "0.25" 0 41 40 "0.08" "0.3" 0 0 callPayoff False]
  by simp

subsection \<open>Call delta and put delta\<close>

text \<open>
  C5 claims that the call delta minus the put delta is \<open>exp (- \<delta> * \<tau>)\<close>. \<open>bsmPutDelta\<close>
  returns \<open>exp (- \<delta> * \<tau>) * N (- d1)\<close>, which is positive; where \<open>d1 = 0\<close> the two deltas
  are equal and their difference is \<open>0\<close>.
\<close>

theorem delta_difference_counterexample:
  "bsmCallDelta 40 40 0.3 0.03 1 0.075 = Inr (exp (- 0.075) / 2)
   \<and> bsmPutDelta 40 40 0.3 0.03 1 0.075 = Inr (exp (- 0.075) / 2)
   \<and> exp (- 0.075) / 2 - exp (- 0.075) / 2 \<noteq> exp (- 0.075 * 1 :: real)"
  by (simp add: bsmCallDelta_cases bsmPutDelta_cases spec_d1_def norm_cdf_zero power2_eq_square)

text \<open>
  C5, as the code has it: for valid parameters the call delta plus the put delta is
  \<open>exp (- \<delta> * \<tau>)\<close>, that is, the put delta is \<open>exp (- \<delta> * \<tau>)\<close> minus the call delta.
\<close>

theorem delta_sum:
  assumes "0 < spot" "0 < strike" "0 < vol" "0 < tau" "0 \<le> dv"
  shows "\<exists>c p. bsmCallDelta spot strike vol rate tau dv = Inr c
             \<and> bsmPutDelta spot strike vol rate tau dv = Inr p
             \<and> c + p = exp (- dv * tau)"
proof -
  let ?d1 = "spec_d1 spot strike vol rate tau dv"
  have "bsmCallDelta spot strike vol rate tau dv = Inr (exp (- dv * tau) * norm_cdf ?d1)"
    and "bsmPutDelta spot strike vol rate tau dv = Inr (exp (- dv * tau) * norm_cdf (- ?d1))"
    using assms by (simp_all add: bsmCallDelta_cases bsmPutDelta_cases not_le)
  moreover have "exp (- dv * tau) * norm_cdf ?d1 + exp (- dv * tau) * norm_cdf (- ?d1) = exp (- dv * tau)"
    by (simp add: norm_cdf_minus algebra_simps)
  ultimately show ?thesis
    by blast
qed

text \<open>
  The notebook's data (McDonald, chapter 13): the printed deltas \<open>0.5824\<close> and \<open>0.4176\<close>
  add up to \<open>1\<close>.
\<close>

theorem delta_sum_witness:
  "\<exists>c p. bsmCallDelta 40 40 0.3 0.08 (91 / 365) 0 = Inr c
        \<and> bsmPutDelta 40 40 0.3 0.08 (91 / 365) 0 = Inr p
        \<and> c + p = 1"
  using delta_sum [of 40 40 "0.3" "91 / 365" 0 "0.08"]
  by simp

subsection \<open>Delta bounds\<close>

text \<open>
  C6 claims \<open>0 \<le> CallDelta \<le> exp (- \<delta> * \<tau>)\<close> and \<open>- exp (- \<delta> * \<tau>) \<le> PutDelta \<le> 0\<close>.
  The put delta the code returns is positive.
\<close>

theorem put_delta_sign_counterexample:
  "bsmPutDelta 40 40 0.3 0.03 1 0.075 = Inr (exp (- 0.075) / 2)
   \<and> \<not> exp (- 0.075) / 2 \<le> (0 :: real)"
  by (simp add: bsmPutDelta_cases spec_d1_def norm_cdf_zero not_le power2_eq_square)

text \<open>
  C6, as the code has it: for valid parameters both deltas lie between \<open>0\<close> and
  \<open>exp (- \<delta> * \<tau>)\<close>.
\<close>

theorem delta_bounds:
  assumes "0 < spot" "0 < strike" "0 < vol" "0 < tau" "0 \<le> dv"
  shows "\<exists>c p. bsmCallDelta spot strike vol rate tau dv = Inr c
             \<and> bsmPutDelta spot strike vol rate tau dv = Inr p
             \<and> 0 \<le> c \<and> c \<le> exp (- dv * tau) \<and> 0 \<le> p \<and> p \<le> exp (- dv * tau)"
proof -
  have "0 \<le> norm_cdf x \<and> norm_cdf x \<le> 1" for x
    using norm_cdf_pos [of x] norm_cdf_less_one [of x] by simp
  then have "0 \<le> exp (- dv * tau) * norm_cdf x \<and> exp (- dv * tau) * norm_cdf x \<le> exp (- dv * tau)" for x
    by (simp add: mult_left_le)
  with assms show ?thesis
    by (simp add: bsmCallDelta_cases bsmPutDelta_cases not_le)
qed

text \<open>
  The notebook's data again.
\<close>

theorem delta_bounds_witness:
  "\<exists>c p. bsmCallDelta 40 40 0.3 0.08 (91 / 365) 0 = Inr c
        \<and> bsmPutDelta 40 40 0.3 0.08 (91 / 365) 0 = Inr p
        \<and> 0 \<le> c \<and> c \<le> 1 \<and> 0 \<le> p \<and> p \<le> 1"
  using delta_bounds [of 40 40 "0.3" "91 / 365" 0 "0.08"]
  by simp

subsection \<open>Put-call parity on the lattice\<close>

text \<open>
  C7. For valid parameters and \<open>n \<ge> 1\<close> steps, the lattice price of the call payoff minus
  the lattice price of the put payoff is \<open>S * exp (- \<delta> * \<tau>) - K * exp (- r * \<tau>)\<close>, exactly
  (over the reals).
\<close>

theorem binomialPricer_parity:
  assumes "0 < S" "0 < K" "0 < v" "0 < T" "0 \<le> q" "1 \<le> n"
  shows "\<exists>c p. returned (binomialPricer S K r v q T n callPayoff verbose) = Inr c
             \<and> returned (binomialPricer S K r v q T n putPayoff verbose) = Inr p
             \<and> c - p = S * exp (- q * T) - K * exp (- r * T)"
proof -
  have v: "v \<noteq> 0" and n: "0 < nat n"
    using assms by simp_all
  have "returned (binomialPricer S K r v q T n callPayoff verbose)
          = Inr (spec_lattice_price S K r v q T (nat n) callPayoff)"
    and "returned (binomialPricer S K r v q T n putPayoff verbose)
          = Inr (spec_lattice_price S K r v q T (nat n) putPayoff)"
    by (rule binomialPricer_valid [OF assms(6,4) v])+
  moreover have "spec_lattice_price S K r v q T (nat n) callPayoff
        - spec_lattice_price S K r v q T (nat n) putPayoff = S * exp (- q * T) - K * exp (- r * T)"
    by (rule lattice_parity [OF n assms(4) v])
  ultimately show ?thesis
    by blast
qed

text \<open>
  The notebook's data (McDonald, chapter 12) on 500 steps.
\<close>

theorem binomialPricer_parity_witness:
  "\<exists>c p. returned (binomialPricer 41 40 0.08 0.3 0 0.25 500 callPayoff False) = Inr c
        \<and> returned (binomialPricer 41 40 0.08 0.3 0 0.25 500 putPayoff False) = Inr p
        \<and> c - p = 41 - 40 * exp (- 0.02)"
  using binomialPricer_parity [of 41 40 "0.3" "0.25" 0 500 "0.08" False]
  by simp

subsection \<open>No arbitrage\<close>

text \<open>
  C8. With a positive volatility, a positive time to expiry and \<open>n \<ge> 1\<close> steps the move
  sizes satisfy \<open>d < exp ((r - \<delta>) * h) < u\<close>, and the risk-neutral probability \<open>p*\<close> that
  \<open>binomialPricer\<close> computes lies strictly between \<open>0\<close> and \<open>1\<close>.
\<close>

theorem lattice_no_arbitrage:
  assumes "0 < v" "0 < T" "1 \<le> n"
  shows "\<exists>h u d pstar. lattice_setup r v q T n = Inr (h, u, d, pstar)
           \<and> h = T / of_int n
           \<and> d < exp ((r - q) * h) \<and> exp ((r - q) * h) < u
           \<and> 0 < pstar \<and> pstar < 1"
proof -
  let ?h = "T / of_int n"
  have h: "n \<noteq> 0" "0 < ?h" and v: "v \<noteq> 0"
    using assms by simp_all
  then have "lattice_setup r v q T n = Inr (?h, spec_u r v q ?h, spec_d r v q ?h, spec_pstar r v q ?h)"
    by (simp add: lattice_setup_cases not_le spec_pstar_def spec_u_def spec_d_def)
  moreover note spec_moves_order [OF assms(1) h(2), of r q] spec_pstar_unit [OF v h(2), of r q]
  ultimately show ?thesis
    by blast
qed

text \<open>
  Ten steps over a quarter: \<open>h = 0.025\<close>.
\<close>

theorem lattice_no_arbitrage_witness:
  "\<exists>h u d pstar. lattice_setup 0.08 0.3 0 0.25 10 = Inr (h, u, d, pstar)
           \<and> h = 0.025
           \<and> d < exp (0.08 * h) \<and> exp (0.08 * h) < u
           \<and> 0 < pstar \<and> pstar < 1"
  using lattice_no_arbitrage [of "0.3" "0.25" 10 "0.08" 0]
  by simp

subsection \<open>The verbose flag\<close>

text \<open>
  C9. On every input \<open>binomialPricer\<close> returns the same (a price, or the same failure)
  with \<^verbatim>\<open>verbose\<close> set and unset: the flag decides only what is printed.
\<close>

theorem binomialPricer_verbose_irrelevant:
  "returned (binomialPricer S K r v q T n payoff True)
     = returned (binomialPricer S K r v q T n payoff False)"
  by (simp only: binomialPricer_cases)

subsection \<open>Non-negative prices\<close>

text \<open>
  C10. With a positive volatility, a positive time to expiry, \<open>n \<ge> 1\<close> steps and a payoff
  function that is never negative, the price \<open>binomialPricer\<close> returns is not negative.
\<close>

theorem binomialPricer_nonneg:
  assumes "0 < v" "0 < T" "1 \<le> n" "\<forall>s k. 0 \<le> payoff s k"
  shows "\<exists>p. returned (binomialPricer S K r v q T n payoff verbose) = Inr p \<and> 0 \<le> p"
proof -
  have v: "v \<noteq> 0" and n: "0 < nat n"
    using assms by simp_all
  have "0 \<le> spec_lattice_price S K r v q T (nat n) payoff"
    using assms(4) by (intro lattice_price_nonneg [OF assms(2) v n]) simp
  then show ?thesis
    using binomialPricer_valid [OF assms(3,2) v, of S K r q payoff verbose] by simp
qed

text \<open>
  The put payoff is never negative; ten steps on the notebook's data.
\<close>

theorem binomialPricer_nonneg_witness:
  "(\<forall>s k. 0 \<le> putPayoff s k)
   \<and> (\<exists>p. returned (binomialPricer 41 40 0.08 0.3 0 0.25 10 putPayoff True) = Inr p \<and> 0 \<le> p)"
proof -
  have "\<forall>s k. 0 \<le> putPayoff s k"
    by (simp add: putPayoff_def)
  then show ?thesis
    using binomialPricer_nonneg [of "0.3" "0.25" 10 putPayoff 41 40 "0.08" 0 True] by simp
qed

end
